theory Spec2Isabelle
  imports Main
begin

section \<open>Python strings\<close>

text \<open>
  A Python \<open>str\<close> is modelled as a \<open>string\<close> whose characters are the code points
  below 256. On that range \<open>str.isdigit\<close> holds for the ASCII digits and for the
  superscript digits U+00B2, U+00B3 and U+00B9; \<open>str.isspace\<close> (the characters
  \<open>str.strip()\<close> removes and the regular-expression class \<open>\s\<close>) holds for
  U+0009..U+000D, U+001C..U+0020, U+0085 and U+00A0; \<open>\d\<close> matches the ASCII digits
  only.
\<close>

definition isdigit :: "char \<Rightarrow> bool" where
  "isdigit c =
     (let n = (of_char c :: nat)
      in (48 \<le> n \<and> n \<le> 57) \<or> n = 178 \<or> n = 179 \<or> n = 185)"

definition isspace :: "char \<Rightarrow> bool" where
  "isspace c =
     (let n = (of_char c :: nat)
      in (9 \<le> n \<and> n \<le> 13) \<or> (28 \<le> n \<and> n \<le> 32) \<or> n = 133 \<or> n = 160)"

definition is_decimal_digit :: "char \<Rightarrow> bool" where
  \<comment> \<open>the ten decimal digits \<open>0\<close> .. \<open>9\<close>; also what \<open>\d\<close> matches below U+0100\<close>
  "is_decimal_digit c = (let n = (of_char c :: nat) in 48 \<le> n \<and> n \<le> 57)"

definition strip :: "string \<Rightarrow> string" where
  \<comment> \<open>\<open>s.strip()\<close>\<close>
  "strip s = rev (dropWhile isspace (rev (dropWhile isspace s)))"

definition replace :: "char \<Rightarrow> string \<Rightarrow> string \<Rightarrow> string" where
  \<comment> \<open>\<open>s.replace(old, new)\<close> for a one-character \<open>old\<close>\<close>
  "replace old new s = concat (map (\<lambda>c. if c = old then new else [c]) s)"

definition startswith :: "string \<Rightarrow> string \<Rightarrow> bool" where
  \<comment> \<open>\<open>s.startswith(p)\<close>\<close>
  "startswith s p = (take (length p) s = p)"

fun join :: "string \<Rightarrow> string list \<Rightarrow> string" where
  \<comment> \<open>\<open>sep.join(xs)\<close>\<close>
  "join sep [] = []"
| "join sep [x] = x"
| "join sep (x # y # ys) = x @ sep @ join sep (y # ys)"

section \<open>Exceptions\<close>

text \<open>
  Every constructor is a subclass of Python's \<open>Exception\<close>. \<open>Timeout\<close> is
  \<open>requests.Timeout\<close>; \<open>RequestException\<close> stands for any
  \<open>requests.RequestException\<close> that is not a \<open>Timeout\<close> (a refused connection, a
  failed name lookup, a TLS failure). \<open>PyException\<close> is any other exception, by class name.
\<close>

datatype exn =
    InvalidArgumentError
  | OperationFailedError
  | InvalidSchemeError
  | URLNotFoundError
  | URLTimeoutError
  | ExtractLevelFailureError
  | Timeout
  | RequestException
  | TimeoutException
  | NoSuchElementException
  | PyException string

section \<open>Phone normalization\<close>

definition normalize_phone_number :: "string \<Rightarrow> exn + string" where
  "normalize_phone_number phone_number =
     (let phone_number = strip phone_number
      in if \<not> list_all (\<lambda>c. isdigit c \<or> c = CHR ''-'' \<or> c = CHR '' '') phone_number
         then Inl InvalidArgumentError
         else Inr (replace (CHR '' '') [] (replace (CHR ''-'') [] phone_number)))"

section \<open>Regular expressions\<close>

text \<open>
  The fragment of Python's \<open>re\<close> syntax used by the URL grammar. \<open>rems r s\<close> lists
  the remainders of \<open>s\<close> after every way of matching \<open>r\<close> at its start, so a
  pattern matches iff the list is not empty, which is what the backtracking search of
  \<open>re.match\<close> decides. Literals fold case (\<open>re.IGNORECASE\<close>); a class carries its
  own case folding. \<open>EndOfString\<close> is \<open>$\<close>: the end of the string, or the position
  before a final line feed.
\<close>

definition is_upper :: "char \<Rightarrow> bool" where
  "is_upper c = (let n = (of_char c :: nat) in 65 \<le> n \<and> n \<le> 90)"

definition is_lower :: "char \<Rightarrow> bool" where
  "is_lower c = (let n = (of_char c :: nat) in 97 \<le> n \<and> n \<le> 122)"

definition lower :: "char \<Rightarrow> char" where
  "lower c = (if is_upper c then char_of (of_char c + (32::nat)) else c)"

datatype re =
    Chr char
  | Cls "char \<Rightarrow> bool"
  | Cat re re
  | Alt re re
  | Opt re
  | Rep nat "nat option" re
  | NotAhead re
  | EndOfString

fun rep_rems :: "(string \<Rightarrow> string list) \<Rightarrow> nat \<Rightarrow> nat option \<Rightarrow> string \<Rightarrow> string list" where
  \<comment> \<open>between \<open>lo\<close> and \<open>hi\<close> repetitions, each consuming at least one character\<close>
  "rep_rems f lo hi s =
     (if lo = 0 then [s] else []) @
     (if hi = Some 0 then []
      else concat (map (rep_rems f (lo - 1) (map_option (\<lambda>h. h - 1) hi))
                       (filter (\<lambda>t. length t < length s) (f s))))"

declare rep_rems.simps [simp del]

primrec rems :: "re \<Rightarrow> string \<Rightarrow> string list" where
  "rems (Chr c) s = (case s of [] \<Rightarrow> [] | x # xs \<Rightarrow> if lower x = lower c then [xs] else [])"
| "rems (Cls p) s = (case s of [] \<Rightarrow> [] | x # xs \<Rightarrow> if p x then [xs] else [])"
| "rems (Cat a b) s = concat (map (rems b) (rems a s))"
| "rems (Alt a b) s = rems a s @ rems b s"
| "rems (Opt a) s = rems a s @ [s]"
| "rems (Rep lo hi a) s = rep_rems (rems a) lo hi s"
| "rems (NotAhead a) s = (if rems a s = [] then [s] else [])"
| "rems EndOfString s = (if s = [] \<or> s = [CHR 0x0A] then [s] else [])"

definition lit :: "string \<Rightarrow> re" where
  "lit s = foldr (\<lambda>c r. Cat (Chr c) r) (butlast s) (Chr (last s))"

definition re_match :: "re \<Rightarrow> string \<Rightarrow> bool" where
  \<comment> \<open>\<open>re.match(r, s) is not None\<close>\<close>
  "re_match r s = (rems r s \<noteq> [])"

section \<open>The URL grammar\<close>

definition alpha :: "char \<Rightarrow> bool" where
  \<comment> \<open>\<open>[A-Z]\<close> under IGNORECASE\<close>
  "alpha c = (is_upper c \<or> is_lower c)"

definition alnum :: "char \<Rightarrow> bool" where
  \<comment> \<open>\<open>[A-Z0-9]\<close> under IGNORECASE\<close>
  "alnum c = (alpha c \<or> is_decimal_digit c)"

definition alnum_hyphen :: "char \<Rightarrow> bool" where
  \<comment> \<open>\<open>[A-Z0-9-]\<close> under IGNORECASE\<close>
  "alnum_hyphen c = (alnum c \<or> c = CHR ''-'')"

definition hex :: "char \<Rightarrow> bool" where
  \<comment> \<open>\<open>[A-F0-9]\<close> under IGNORECASE\<close>
  "hex c = (is_decimal_digit c \<or> lower c \<in> set ''abcdef'')"

text \<open>
  The pattern of \<open>_is_url\<close>, compiled with \<open>re.IGNORECASE\<close>, piece by piece:
  \<^item> \<open>re_scheme\<close> is \<^verbatim>\<open>^(?:http(s)?://)?\<close>;
  \<^item> \<open>re_ip_literal\<close> is the body of the negative lookahead,
    \<^verbatim>\<open>((\d{1,3}\.\d{1,3}\.\d{1,3}\.\d{1,3})|\[?[A-F0-9]*:[A-F0-9:]+\]?)\<close>;
  \<^item> \<open>re_domain\<close> is
    \<^verbatim>\<open>(?:[A-Z0-9](?:[A-Z0-9-]{0,61}[A-Z0-9])?\.)+(?:[A-Z]{2,6}\.?|[A-Z0-9-]{2,}\.?)\<close>;
  \<^item> \<open>re_host\<close> is \<^verbatim>\<open>(?:(?!ip_literal)domain|localhost)\<close>;
  \<^item> \<open>re_port\<close> is \<^verbatim>\<open>(?::\d+)?\<close>;
  \<^item> \<open>re_path\<close> is \<^verbatim>\<open>(?:/?|[/?]\S+)$\<close>.
\<close>

definition re_scheme :: re where
  "re_scheme = Opt (Cat (lit ''http'') (Cat (Opt (Chr CHR ''s'')) (lit ''://'')))"

definition re_octet :: re where
  "re_octet = Rep 1 (Some 3) (Cls is_decimal_digit)"

definition re_ip_literal :: re where
  "re_ip_literal =
     Alt (Cat re_octet (Cat (Chr CHR ''.'') (Cat re_octet (Cat (Chr CHR ''.'')
            (Cat re_octet (Cat (Chr CHR ''.'') re_octet))))))
         (Cat (Opt (Chr CHR ''[''))
            (Cat (Rep 0 None (Cls hex))
            (Cat (Chr CHR '':'')
            (Cat (Rep 1 None (Cls (\<lambda>c. hex c \<or> c = CHR '':'')))
                 (Opt (Chr CHR '']''))))))"

definition re_domain :: re where
  "re_domain =
     Cat (Rep 1 None
            (Cat (Cls alnum)
            (Cat (Opt (Cat (Rep 0 (Some 61) (Cls alnum_hyphen)) (Cls alnum)))
                 (Chr CHR ''.''))))
         (Alt (Cat (Rep 2 (Some 6) (Cls alpha)) (Opt (Chr CHR ''.'')))
              (Cat (Rep 2 None (Cls alnum_hyphen)) (Opt (Chr CHR ''.''))))"

definition re_host :: re where
  "re_host = Alt (Cat (NotAhead re_ip_literal) re_domain) (lit ''localhost'')"

definition re_port :: re where
  "re_port = Opt (Cat (Chr CHR '':'') (Rep 1 None (Cls is_decimal_digit)))"

definition re_path :: re where
  "re_path =
     Cat (Alt (Opt (Chr CHR ''/''))
              (Cat (Cls (\<lambda>c. c = CHR ''/'' \<or> c = CHR ''?''))
                   (Rep 1 None (Cls (\<lambda>c. \<not> isspace c)))))
         EndOfString"

definition url_regex :: re where
  "url_regex = Cat re_scheme (Cat re_host (Cat re_port re_path))"

definition is_url :: "string \<Rightarrow> bool" where
  "is_url url = re_match url_regex url"

section \<open>The outside world\<close>

text \<open>
  Everything the checker does to the outside is a \<open>call\<close>, appended to the log of the
  state when it is made. The world answers a call as a function of the calls made before
  it, so the same request may be answered differently at different times. \<open>sessions\<close>
  counts the browser sessions that were started and not yet quit.
\<close>

datatype call =
    Head string  \<comment> \<open>\<open>requests.head(url, allow_redirects=True, timeout=5)\<close>\<close>
  | Post string string  \<comment> \<open>\<open>requests.post(url, ...)\<close> with the phone number as keyword\<close>
  | IsSafe string string  \<comment> \<open>\<open>is_safe\<close> of the registry node with this id, on this subject\<close>
  | Chrome  \<comment> \<open>\<open>webdriver.Chrome(service, options)\<close>\<close>
  | Stealth
  | Get string
  | WaitPresence string
      \<comment> \<open>\<open>WebDriverWait(driver, timeout=10).until(presence_of_element_located(...))\<close>\<close>
  | SendKeys string
  | FindElement string
  | Click
  | Quit
  | Sleep nat

record state =
  log :: "call list"
  sessions :: nat

record response =
  status_code :: int
  resp_url :: string

text \<open>The markup below an element of the page: its tag, its text and its children.\<close>

datatype element = Element (tag_name: string) (elem_text: string) (elem_children: "element list")

record scam_response =
  post_status :: int
  post_data :: "exn + (string \<rightharpoonup> string option)"
    \<comment> \<open>\<open>response.json()["data"]\<close>: a dictionary whose values may be \<open>None\<close>\<close>

record world =
  head_reply :: "call list \<Rightarrow> string \<Rightarrow> exn + response"
  post_reply :: "call list \<Rightarrow> string \<Rightarrow> string \<Rightarrow> exn + scam_response"
  url_verdict :: "call list \<Rightarrow> string \<Rightarrow> string \<Rightarrow> exn + bool"
    \<comment> \<open>what \<open>is_safe\<close> of the URL node with this id does: a verdict, or an exception\<close>
  driver_reply :: "call list \<Rightarrow> call \<Rightarrow> exn option"
    \<comment> \<open>a browser call succeeds (\<open>None\<close>) or raises\<close>
  found_element :: "call list \<Rightarrow> element"
    \<comment> \<open>the markup of the element a successful wait returns\<close>

definition record_call :: "call \<Rightarrow> state \<Rightarrow> state" where
  "record_call c s = s\<lparr>log := log s @ [c]\<rparr>"

definition requests_head :: "world \<Rightarrow> string \<Rightarrow> state \<Rightarrow> (exn + response) \<times> state" where
  "requests_head w url s = (head_reply w (log s) url, record_call (Head url) s)"

section \<open>URL resolution\<close>

definition ensure_scheme :: "string \<Rightarrow> string \<Rightarrow> string" where
  "ensure_scheme url scheme =
     (if \<not> startswith url (scheme @ ''://'') then scheme @ ''://'' @ url else url)"

text \<open>
  Whether an input begins with the optional scheme of the grammar, \<open>http://\<close> or
  \<open>https://\<close> in any letter case. A bare host such as \<open>r3born.cc\<close> does not.
\<close>

definition carries_scheme :: "string \<Rightarrow> bool" where
  "carries_scheme url =
     (startswith (map lower url) ''http://'' \<or> startswith (map lower url) ''https://'')"

definition get_url_with_scheme :: "world \<Rightarrow> string \<Rightarrow> state \<Rightarrow> (exn + string) \<times> state" where
  "get_url_with_scheme w url s =
     (let https_url = ensure_scheme url ''https''
      in case requests_head w https_url s of
           (Inr r, s1) \<Rightarrow> (Inr https_url, s1)
         | (Inl e, s1) \<Rightarrow>
             if e = Timeout then (Inl URLTimeoutError, s1)
             else if e = RequestException then
               (let http_url = ensure_scheme url ''http''
                in case requests_head w http_url s1 of
                     (Inr r, s2) \<Rightarrow> (Inr http_url, s2)
                   | (Inl e2, s2) \<Rightarrow>
                       if e2 = Timeout then (Inl URLTimeoutError, s2)
                       else if e2 = RequestException then (Inl InvalidSchemeError, s2)
                       else (Inl e2, s2))
             else (Inl e, s1))"

definition expand_short_url :: "world \<Rightarrow> string \<Rightarrow> state \<Rightarrow> (exn + string) \<times> state" where
  "expand_short_url w url s =
     (case requests_head w url s of
        (Inl e, s1) \<Rightarrow> if e = Timeout then (Inl URLTimeoutError, s1) else (Inl e, s1)
      | (Inr r, s1) \<Rightarrow>
          if status_code r \<in> set [404] then (Inl URLNotFoundError, s1)
          else if status_code r \<in> set [301, 302] then (Inr (resp_url r), s1)
          else (Inr url, s1))"

definition preprocess_url :: "world \<Rightarrow> string \<Rightarrow> state \<Rightarrow> (exn + string) \<times> state" where
  "preprocess_url w url s =
     (let url = strip url
      in if \<not> is_url url then (Inl InvalidArgumentError, s)
         else case get_url_with_scheme w url s of
                (Inl e, s1) \<Rightarrow> (Inl e, s1)
              | (Inr url_with_scheme, s1) \<Rightarrow> expand_short_url w url_with_scheme s1)"

section \<open>The checker and its override lists\<close>

record safe_checker =
  phone_whitelist :: "string list"
  phone_blacklist :: "string list"
  url_whitelist :: "string list"
  url_blacklist :: "string list"

definition SafeChecker_init :: safe_checker where
  "SafeChecker_init =
     \<lparr>phone_whitelist = [''01092563688''],
      phone_blacklist = [''01082539451''],
      url_whitelist = [''https://sds.co.kr''],
      url_blacklist = [''http://r3born.cc'']\<rparr>"

definition verdict_word :: "bool \<Rightarrow> string" where
  "verdict_word ok = (if ok then ''ok'' else ''suspicious'')"

definition node_report :: "string \<Rightarrow> string \<Rightarrow> bool \<Rightarrow> string" where
  \<comment> \<open>the f-string \<open>Node_i(Class): ok\<close> or \<open>Node_i(Class): suspicious\<close>\<close>
  "node_report node cls ok = node @ ''('' @ cls @ ''): '' @ verdict_word ok"

definition build_report :: "string list \<Rightarrow> string" where
  \<comment> \<open>the lines, each behind a dash, joined by line feeds\<close>
  "build_report reports = join [CHR 0x0A] (map (\<lambda>report. ''- '' @ report) reports)"

section \<open>URL check\<close>

text \<open>
  The three URL nodes (\<open>PhishtankURLSafeChecker\<close>, \<open>WhoXYURLSafeChecker\<close>,
  \<open>KISAURLSafeChecker\<close>) query remote services; each \<open>is_safe\<close> returns a Boolean or
  raises. The world gives that outcome per node id.
\<close>

definition url_safe_checker_is_safe ::
    "world \<Rightarrow> string \<Rightarrow> string \<Rightarrow> state \<Rightarrow> (exn + bool) \<times> state" where
  "url_safe_checker_is_safe w node url s =
     (url_verdict w (log s) node url, record_call (IsSafe node url) s)"

definition check_url_safety ::
    "safe_checker \<Rightarrow> world \<Rightarrow> string \<Rightarrow> state \<Rightarrow> (exn + bool \<times> string) \<times> state" where
  "check_url_safety self w url s =
     (case preprocess_url w url s of
        (Inl e, s1) \<Rightarrow>
          if e \<in> {URLNotFoundError, URLTimeoutError, InvalidSchemeError}
          then (Inr (True, ''URL is not accessible''), s1)
          else (Inl InvalidArgumentError, s1)
      | (Inr url, s1) \<Rightarrow>
          if url \<in> set (phone_whitelist self)
          then (Inr (True, ''Valid url which listed on whitelist''), s1)
          else if url \<in> set (phone_blacklist self)
          then (Inr (False, ''Invalid url which listed on blacklist''), s1)
          else
            (case url_safe_checker_is_safe w ''Node_1'' url s1 of
               (Inl e, s2) \<Rightarrow> (Inl OperationFailedError, s2)
             | (Inr node_1_ok, s2) \<Rightarrow>
            (case url_safe_checker_is_safe w ''Node_2'' url s2 of
               (Inl e, s3) \<Rightarrow> (Inl OperationFailedError, s3)
             | (Inr node_2_ok, s3) \<Rightarrow>
            (case url_safe_checker_is_safe w ''Node_3'' url s3 of
               (Inl e, s4) \<Rightarrow> (Inl OperationFailedError, s4)
             | (Inr node_3_ok, s4) \<Rightarrow>
                 (Inr (node_1_ok \<and> node_2_ok \<and> node_3_ok,
                       build_report
                         [node_report ''Node_1'' ''PhishtankURLSafeChecker'' node_1_ok,
                          node_report ''Node_2'' ''WhoXYURLSafeChecker'' node_2_ok,
                          node_report ''Node_3'' ''KISAURLSafeChecker'' node_3_ok]),
                  s4)))))"

section \<open>Phone nodes\<close>

subsection \<open>Scam-report lookup\<close>

definition requests_post ::
    "world \<Rightarrow> string \<Rightarrow> string \<Rightarrow> state \<Rightarrow> (exn + scam_response) \<times> state" where
  "requests_post w url keyword s = (post_reply w (log s) url keyword, record_call (Post url keyword) s)"

definition getitem :: "(string \<rightharpoonup> 'v) \<Rightarrow> string \<Rightarrow> exn + 'v" where
  \<comment> \<open>\<open>d[k]\<close>\<close>
  "getitem d k = (case d k of None \<Rightarrow> Inl (PyException ''KeyError'') | Some v \<Rightarrow> Inr v)"

definition OneOneFourPhoneSafeChecker_is_safe ::
    "world \<Rightarrow> string \<Rightarrow> state \<Rightarrow> (exn + bool) \<times> state" where
  "OneOneFourPhoneSafeChecker_is_safe w phone_number s =
     (case requests_post w ''https://www.114.co.kr/action/search/scam'' phone_number s of
        (Inl e, s1) \<Rightarrow> (Inl e, s1)
      | (Inr response, s1) \<Rightarrow>
          if post_status response \<noteq> 200 then (Inl (PyException ''Exception''), s1)
          else
            (case post_data response of
               Inl e \<Rightarrow> (Inl e, s1)
             | Inr data \<Rightarrow>
                 (case getitem data ''whowho'' of
                    Inl e \<Rightarrow> (Inl e, s1)
                  | Inr whowho \<Rightarrow>
                      if whowho \<noteq> None then (Inr False, s1)
                      else
                        (case getitem data ''kisa'' of
                           Inl e \<Rightarrow> (Inl e, s1)
                         | Inr kisa \<Rightarrow>
                             if kisa \<noteq> None then (Inr False, s1)
                             else
                               (case getitem data ''thecheat'' of
                                  Inl e \<Rightarrow> (Inl e, s1)
                                | Inr thecheat \<Rightarrow>
                                    if thecheat \<noteq> None then (Inr False, s1)
                                    else (Inr True, s1))))))"

subsection \<open>Browser sessions\<close>

text \<open>
  \<open>webdriver_Chrome\<close> starts a session when it does not raise; \<open>driver_quit\<close>
  releases one. Every other browser call may raise and changes nothing but the log.
  \<open>run_calls\<close> is a straight-line sequence of such calls, left at the first that raises.
\<close>

definition webdriver_Chrome :: "world \<Rightarrow> state \<Rightarrow> exn option \<times> state" where
  "webdriver_Chrome w s =
     (case driver_reply w (log s) Chrome of
        Some e \<Rightarrow> (Some e, record_call Chrome s)
      | None \<Rightarrow> (None, (record_call Chrome s)\<lparr>sessions := Suc (sessions s)\<rparr>))"

definition driver_quit :: "state \<Rightarrow> state" where
  "driver_quit s = (record_call Quit s)\<lparr>sessions := sessions s - 1\<rparr>"

definition driver_call :: "world \<Rightarrow> call \<Rightarrow> state \<Rightarrow> exn option \<times> state" where
  "driver_call w c s = (driver_reply w (log s) c, record_call c s)"

fun run_calls :: "world \<Rightarrow> call list \<Rightarrow> state \<Rightarrow> exn option \<times> state" where
  "run_calls w [] s = (None, s)"
| "run_calls w (c # cs) s =
     (case driver_call w c s of
        (Some e, s1) \<Rightarrow> (Some e, s1)
      | (None, s1) \<Rightarrow> run_calls w cs s1)"

definition time_sleep :: "nat \<Rightarrow> state \<Rightarrow> state" where
  "time_sleep secs s = record_call (Sleep secs) s"

subsection \<open>Browser lookup A\<close>

definition TheCallPhoneSafeChecker_is_safe ::
    "world \<Rightarrow> string \<Rightarrow> state \<Rightarrow> (exn + bool) \<times> state" where
  "TheCallPhoneSafeChecker_is_safe w phone_number s =
     (case webdriver_Chrome w s of
        (Some e, s1) \<Rightarrow> (Inl e, s1)
      | (None, s1) \<Rightarrow>
          (case run_calls w
                  [Stealth,
                   Get ''https://www.thecall.co.kr/'',
                   WaitPresence ''#sidebar > section.number_search > form > input.stx'',
                   SendKeys phone_number,
                   FindElement ''#sidebar > section.number_search > form > input.primary-button'',
                   Click] s1 of
             (Some e, s2) \<Rightarrow> (Inl e, s2)
           | (None, s2) \<Rightarrow>
               (case driver_call w
                       (WaitPresence (''#content-below-adsense-top > div.board-view > article > ''
                          @ ''section > div.article-vote > a:nth-child(1) > span'')) s2 of
                  (None, s3) \<Rightarrow> (Inr False, driver_quit s3)
                | (Some e, s3) \<Rightarrow>
                    if e = TimeoutException then (Inr True, driver_quit s3)
                    else (Inl e, s3))))"

subsection \<open>Browser lookup B\<close>

definition MAX_RETRIES :: nat where
  "MAX_RETRIES = 3"

definition int_of_digits :: "string \<Rightarrow> nat" where
  \<comment> \<open>\<open>int(ds)\<close> for a string of decimal digits\<close>
  "int_of_digits ds = foldl (\<lambda>n c. 10 * n + (of_char c - 48)) 0 ds"

text \<open>
  \<open>_extract_level\<close> searches the text for \<^verbatim>\<open>\(Lv\.(\d+)\)\<close>. \<open>level_at\<close> is a match
  at the start of the text: the digits are the longest run after \<^verbatim>\<open>(Lv.\<close>, since a
  shorter run is followed by a digit and not by the closing bracket. The search takes the
  leftmost position that matches.
\<close>

definition level_at :: "string \<Rightarrow> nat option" where
  "level_at s =
     (if startswith s ''(Lv.'' then
        (let rest = drop 4 s; ds = takeWhile is_decimal_digit rest
         in if ds \<noteq> [] \<and> startswith (dropWhile is_decimal_digit rest) '')''
            then Some (int_of_digits ds) else None)
      else None)"

fun extract_level :: "string \<Rightarrow> exn + nat" where
  "extract_level s =
     (case level_at s of
        Some n \<Rightarrow> Inr n
      | None \<Rightarrow> (case s of [] \<Rightarrow> Inl ExtractLevelFailureError | _ # s' \<Rightarrow> extract_level s'))"

fun descendants :: "element \<Rightarrow> element list" where
  \<comment> \<open>the elements below an element, in document order\<close>
  "descendants (Element t x cs) = concat (map (\<lambda>c. c # descendants c) cs)"

definition find_element_by_tag :: "string \<Rightarrow> element \<Rightarrow> exn + element" where
  \<comment> \<open>\<open>element.find_element(By.TAG_NAME, name)\<close>\<close>
  "find_element_by_tag name el =
     (case filter (\<lambda>d. tag_name d = name) (descendants el) of
        [] \<Rightarrow> Inl NoSuchElementException
      | d # _ \<Rightarrow> Inr d)"

fun first_found :: "element option list \<Rightarrow> element option" where
  \<comment> \<open>the loop over the children: the first result that is not \<open>None\<close>\<close>
  "first_found [] = None"
| "first_found (None # rs) = first_found rs"
| "first_found (Some e # rs) = Some e"

fun find_sup :: "element \<Rightarrow> element option" where
  "find_sup (Element t x cs) =
     (case find_element_by_tag ''sup'' (Element t x cs) of
        Inr sup_element \<Rightarrow> Some sup_element
      | Inl e \<Rightarrow> first_found (map find_sup cs))"

definition extract_attempt :: "world \<Rightarrow> state \<Rightarrow> (exn + bool) \<times> state" where
  \<comment> \<open>the body of the \<open>try\<close> inside the retry loop\<close>
  "extract_attempt w s =
     (case driver_call w (WaitPresence ''result_is_spam'') s of
        (Some e, s1) \<Rightarrow> (Inl e, s1)
      | (None, s1) \<Rightarrow>
          (case find_sup (found_element w (log s)) of
             None \<Rightarrow> (Inl ExtractLevelFailureError, s1)
           | Some sup_element \<Rightarrow>
               (case extract_level (elem_text sup_element) of
                  Inl e \<Rightarrow> (Inl e, s1)
                | Inr spam_level \<Rightarrow> (Inr (\<not> spam_level > 0), s1))))"

function retry_loop :: "world \<Rightarrow> nat \<Rightarrow> bool \<Rightarrow> state \<Rightarrow> (exn + bool) \<times> state" where
  "retry_loop w retry_count is_safe s =
     (if retry_count < MAX_RETRIES then
        (case extract_attempt w s of
           (Inr v, s1) \<Rightarrow> (Inr v, s1)
         | (Inl e, s1) \<Rightarrow>
             if e = ExtractLevelFailureError then
               (if retry_count < MAX_RETRIES
                then retry_loop w (retry_count + 1) is_safe (time_sleep 3 s1)
                else (Inl e, s1))
             else (Inl e, s1))
      else (Inr is_safe, s))"
  by pat_completeness auto
termination
  by (relation "measure (\<lambda>(w, retry_count, is_safe, s). MAX_RETRIES - retry_count)") auto

declare retry_loop.simps [simp del]

definition MissedCallPhoneSafeChecker_is_safe ::
    "world \<Rightarrow> string \<Rightarrow> state \<Rightarrow> (exn + bool) \<times> state" where
  "MissedCallPhoneSafeChecker_is_safe w phone_number s =
     (case webdriver_Chrome w s of
        (Some e, s1) \<Rightarrow> (Inl e, s1)
      | (None, s1) \<Rightarrow>
          (case run_calls w
                  [Stealth,
                   Get ''http://www.missed-call.com/'',
                   WaitPresence ''pnum'',
                   SendKeys phone_number,
                   FindElement ''submitButton'',
                   Click] s1 of
             (Some e, s2) \<Rightarrow> (Inl e, s2)
           | (None, s2) \<Rightarrow>
               (case retry_loop w 0 False s2 of
                  (Inl e, s3) \<Rightarrow> (Inl e, s3)
                | (Inr is_safe, s3) \<Rightarrow> (Inr is_safe, driver_quit s3))))"

section \<open>Phone check\<close>

definition phone_safe_checker ::
    "(string \<times> (world \<Rightarrow> string \<Rightarrow> state \<Rightarrow> (exn + bool) \<times> state)) list" where
  "phone_safe_checker =
     [(''Node_1'', OneOneFourPhoneSafeChecker_is_safe),
      (''Node_2'', TheCallPhoneSafeChecker_is_safe),
      (''Node_3'', MissedCallPhoneSafeChecker_is_safe)]"

definition phone_safe_checker_is_safe ::
    "world \<Rightarrow> string \<Rightarrow> string \<Rightarrow> state \<Rightarrow> (exn + bool) \<times> state" where
  "phone_safe_checker_is_safe w node phone_number s =
     (case map_of phone_safe_checker node of
        None \<Rightarrow> (Inl (PyException ''KeyError''), s)
      | Some is_safe \<Rightarrow> is_safe w phone_number (record_call (IsSafe node phone_number) s))"

definition check_phone_safety ::
    "safe_checker \<Rightarrow> world \<Rightarrow> string \<Rightarrow> state \<Rightarrow> (exn + bool \<times> string) \<times> state" where
  "check_phone_safety self w phone_number s =
     (case normalize_phone_number phone_number of
        Inl e \<Rightarrow> (Inl InvalidArgumentError, s)
      | Inr phone_number \<Rightarrow>
          if phone_number \<in> set (phone_whitelist self)
          then (Inr (True, ''Valid phone number which listed on whitelist''), s)
          else if phone_number \<in> set (phone_blacklist self)
          then (Inr (False, ''Invalid phone number which listed on blacklist''), s)
          else
            (case phone_safe_checker_is_safe w ''Node_1'' phone_number s of
               (Inl e, s2) \<Rightarrow> (Inl OperationFailedError, s2)
             | (Inr node_1_ok, s2) \<Rightarrow>
            (case phone_safe_checker_is_safe w ''Node_2'' phone_number s2 of
               (Inl e, s3) \<Rightarrow> (Inl OperationFailedError, s3)
             | (Inr node_2_ok, s3) \<Rightarrow>
            (case phone_safe_checker_is_safe w ''Node_3'' phone_number s3 of
               (Inl e, s4) \<Rightarrow> (Inl OperationFailedError, s4)
             | (Inr node_3_ok, s4) \<Rightarrow>
                 (Inr (node_1_ok \<and> node_2_ok \<and> node_3_ok,
                       build_report
                         [node_report ''Node_1'' ''OneOneFourPhoneSafeChecker'' node_1_ok,
                          node_report ''Node_2'' ''TheCallPhoneSafeChecker'' node_2_ok,
                          node_report ''Node_3'' ''MissedCallPhoneSafeChecker'' node_3_ok]),
                  s4)))))"

section \<open>Reading the log and the report\<close>

fun is_node_call :: "call \<Rightarrow> bool" where
  "is_node_call (IsSafe node subject) = True"
| "is_node_call c = False"

definition node_calls :: "state \<Rightarrow> call list" where
  "node_calls s = filter is_node_call (log s)"

fun split_on :: "char \<Rightarrow> string \<Rightarrow> string list" where
  \<comment> \<open>\<open>s.split(sep)\<close> for a one-character separator\<close>
  "split_on sep [] = [] # []"
| "split_on sep (c # cs) =
     (if c = sep then [] # split_on sep cs
      else (case split_on sep cs of [] \<Rightarrow> [c] # [] | l # ls \<Rightarrow> (c # l) # ls))"

definition report_lines :: "string \<Rightarrow> string list" where
  "report_lines report = split_on (CHR 0x0A) report"

section \<open>Being in an override list\<close>

definition in_override_list :: "safe_checker \<Rightarrow> string \<Rightarrow> bool" where
  "in_override_list self subject =
     (subject \<in> set (phone_whitelist self) \<or> subject \<in> set (phone_blacklist self)
      \<or> subject \<in> set (url_whitelist self) \<or> subject \<in> set (url_blacklist self))"

section \<open>Example worlds\<close>

definition start :: state where
  "start = \<lparr>log = [], sessions = 0\<rparr>"

definition clean_scam_data :: "string \<rightharpoonup> string option" where
  "clean_scam_data = [''whowho'' \<mapsto> None, ''kisa'' \<mapsto> None, ''thecheat'' \<mapsto> None]"

text \<open>
  A world in which hosts answer plain HTTP only, every URL node and the scam-report
  lookup find nothing, the first lookup site shows its report marker, and the second
  shows spam level 0.
\<close>

definition world_plain_http :: world where
  "world_plain_http =
     \<lparr>head_reply = (\<lambda>log url. if startswith url ''http://''
                                then Inr \<lparr>status_code = 200, resp_url = url\<rparr>
                                else Inl RequestException),
      post_reply = (\<lambda>log url keyword. Inr \<lparr>post_status = 200, post_data = Inr clean_scam_data\<rparr>),
      url_verdict = (\<lambda>log node url. Inr True),
      driver_reply = (\<lambda>log c. None),
      found_element =
        (\<lambda>log. Element ''div'' ''Spam (Lv.0)''
                  [Element ''span'' ''(Lv.0)'' [Element ''sup'' ''(Lv.0)'' []]])\<rparr>"

text \<open>The same, but port 443 drops every packet: the HTTPS probe times out.\<close>

definition world_https_timeout :: world where
  "world_https_timeout =
     world_plain_http\<lparr>head_reply :=
       (\<lambda>log url. if startswith url ''https://'' then Inl Timeout
                   else Inr \<lparr>status_code = 200, resp_url = url\<rparr>)\<rparr>"

text \<open>No host answers at all.\<close>

definition world_unreachable :: world where
  "world_unreachable = world_plain_http\<lparr>head_reply := (\<lambda>log url. Inl RequestException)\<rparr>"

text \<open>Hosts answer the scheme probe, and the expansion probe finds nothing there.\<close>

definition world_not_found :: world where
  "world_not_found =
     world_plain_http\<lparr>head_reply :=
       (\<lambda>log url. Inr \<lparr>status_code = (if log = [] then 200 else 404), resp_url = url\<rparr>)\<rparr>"

text \<open>The second URL node finds the subject suspicious.\<close>

definition world_mixed :: world where
  "world_mixed = world_plain_http\<lparr>url_verdict := (\<lambda>log node url. Inr (node \<noteq> ''Node_2''))\<rparr>"

text \<open>The second URL node and the scam-report lookup fail.\<close>

definition world_node_error :: world where
  "world_node_error =
     world_plain_http
       \<lparr>post_reply := (\<lambda>log url keyword. Inl RequestException),
        url_verdict := (\<lambda>log node url. if node = ''Node_2''
                                         then Inl (PyException ''RequestFailureError'')
                                         else Inr True)\<rparr>"

text \<open>The second lookup site never shows a spam level below its result element.\<close>

definition world_no_level :: world where
  "world_no_level =
     world_plain_http\<lparr>found_element :=
       (\<lambda>log. Element ''div'' ''loading'' [Element ''span'' ''loading'' []])\<rparr>"

text \<open>The first lookup site never shows its input field.\<close>

definition world_no_input :: world where
  "world_no_input =
     world_plain_http\<lparr>driver_reply :=
       (\<lambda>log c. if c = WaitPresence ''#sidebar > section.number_search > form > input.stx''
                 then Some TimeoutException else None)\<rparr>"

section \<open>Properties of phone normalization\<close>

lemma replace_filter: "replace old [] s = filter (\<lambda>c. c \<noteq> old) s"
  by (induction s) (simp_all add: replace_def)

lemma isdigit_not_isspace: "isdigit c \<Longrightarrow> \<not> isspace c"
  by (auto simp: isdigit_def isspace_def Let_def)

lemma isdigit_not_hyphen: "isdigit c \<Longrightarrow> c \<noteq> CHR ''-''"
  by (auto simp: isdigit_def)

lemma isdigit_not_space: "isdigit c \<Longrightarrow> c \<noteq> CHR '' ''"
  by (auto simp: isdigit_def)

lemma dropWhile_none: "\<forall>c\<in>set s. \<not> P c \<Longrightarrow> dropWhile P s = s"
  by (cases s) simp_all

lemma strip_digits: "list_all isdigit t \<Longrightarrow> strip t = t"
  by (simp add: strip_def list_all_iff dropWhile_none isdigit_not_isspace)

lemma filter_all: "\<forall>c\<in>set s. P c \<Longrightarrow> filter P s = s"
  by (induction s) simp_all

lemma normalize_digits:
  assumes "list_all isdigit t"
  shows "normalize_phone_number t = Inr t"
proof -
  have s: "strip t = t" using assms by (rule strip_digits)
  have a: "list_all (\<lambda>c. isdigit c \<or> c = CHR ''-'' \<or> c = CHR '' '') t"
    using assms by (simp add: list_all_iff)
  have f1: "filter (\<lambda>c. c \<noteq> CHR ''-'') t = t"
    using assms by (intro filter_all) (simp add: list_all_iff isdigit_not_hyphen)
  have f2: "filter (\<lambda>c. c \<noteq> CHR '' '') t = t"
    using assms by (intro filter_all) (simp add: list_all_iff isdigit_not_space)
  show ?thesis
    by (simp add: normalize_phone_number_def s a replace_filter f1 f2)
qed

lemma normalize_result_digits:
  assumes "normalize_phone_number s = Inr t"
  shows "list_all isdigit t"
proof -
  let ?p = "strip s"
  from assms have ok: "list_all (\<lambda>c. isdigit c \<or> c = CHR ''-'' \<or> c = CHR '' '') ?p"
    and t: "t = filter (\<lambda>c. c \<noteq> CHR '' '') (filter (\<lambda>c. c \<noteq> CHR ''-'') ?p)"
    by (auto simp: normalize_phone_number_def Let_def replace_filter split: if_splits)
  show ?thesis
    unfolding t using ok by (auto simp: list_all_iff)
qed

text \<open>
  C6, as amended. For every input string, phone normalization either fails with
  \<open>InvalidArgumentError\<close>, exactly when the whitespace-trimmed input contains a
  character that is neither a digit in the sense of \<open>str.isdigit\<close> nor a hyphen nor a
  space, or it returns a string, possibly empty, in which every character is a digit in
  the sense of \<open>str.isdigit\<close>. No other failure occurs.
\<close>

theorem normalize_phone_number_digits:
  "(normalize_phone_number s = Inl InvalidArgumentError \<longleftrightarrow>
      (\<exists>c\<in>set (strip s). \<not> isdigit c \<and> c \<noteq> CHR ''-'' \<and> c \<noteq> CHR '' ''))
   \<and> (normalize_phone_number s = Inl InvalidArgumentError
        \<or> (\<exists>t. normalize_phone_number s = Inr t \<and> list_all isdigit t))"
proof -
  have "\<exists>t. normalize_phone_number s = Inr t \<and> list_all isdigit t"
    if "normalize_phone_number s \<noteq> Inl InvalidArgumentError"
  proof -
    from that obtain t where t: "normalize_phone_number s = Inr t"
      by (auto simp: normalize_phone_number_def Let_def split: if_splits)
    with normalize_result_digits show ?thesis by blast
  qed
  moreover have "normalize_phone_number s = Inl InvalidArgumentError \<longleftrightarrow>
      (\<exists>c\<in>set (strip s). \<not> isdigit c \<and> c \<noteq> CHR ''-'' \<and> c \<noteq> CHR '' '')"
    by (auto simp: normalize_phone_number_def Let_def list_all_iff)
  ultimately show ?thesis by blast
qed

theorem normalize_phone_number_digits_witness:
  "normalize_phone_number ''010-9256-3688'' = Inr ''01092563688''
   \<and> list_all isdigit ''01092563688''
   \<and> normalize_phone_number ''010-9256x'' = Inl InvalidArgumentError
   \<and> (\<exists>c\<in>set (strip ''010-9256x''). \<not> isdigit c \<and> c \<noteq> CHR ''-'' \<and> c \<noteq> CHR '' '')"
proof -
  have a: "normalize_phone_number ''010-9256-3688'' = Inr ''01092563688''"
    by (simp add: normalize_phone_number_def strip_def replace_def isdigit_def isspace_def)
  have b: "normalize_phone_number ''010-9256x'' = Inl InvalidArgumentError"
    by (simp add: normalize_phone_number_def strip_def replace_def isdigit_def isspace_def)
  from normalize_phone_number_digits [of "''010-9256-3688''"] a
  have "list_all isdigit ''01092563688''" by simp
  moreover from normalize_phone_number_digits [of "''010-9256x''"] b
  have "\<exists>c\<in>set (strip ''010-9256x''). \<not> isdigit c \<and> c \<noteq> CHR ''-'' \<and> c \<noteq> CHR '' ''"
    by blast
  ultimately show ?thesis using a b by blast
qed

text \<open>
  C6, as stated, fails: the empty input (and any input of hyphens and spaces only)
  normalizes to the empty string, which is not a canonical phone number; and the
  superscript two, a digit for \<open>str.isdigit\<close> but not a decimal digit, is accepted and
  returned unchanged.
\<close>

theorem normalize_phone_number_counterexample:
  "normalize_phone_number '''' = Inr ''''
   \<and> normalize_phone_number ''- -'' = Inr ''''
   \<and> normalize_phone_number [CHR 0xB2] = Inr [CHR 0xB2]
   \<and> \<not> is_decimal_digit (CHR 0xB2)"
  by (simp add: normalize_phone_number_def strip_def replace_def isdigit_def isspace_def
      is_decimal_digit_def)

text \<open>
  C9. Phone normalization is idempotent: whenever it succeeds on an input, it succeeds
  on its own output and returns that output unchanged.
\<close>

theorem normalize_phone_number_idempotent:
  "normalize_phone_number s = Inr t \<Longrightarrow> normalize_phone_number t = Inr t"
  by (rule normalize_digits) (rule normalize_result_digits)

theorem normalize_phone_number_idempotent_witness:
  "normalize_phone_number '' 010-9256 3688 '' = Inr ''01092563688''
   \<and> normalize_phone_number ''01092563688'' = Inr ''01092563688''"
proof -
  have a: "normalize_phone_number '' 010-9256 3688 '' = Inr ''01092563688''"
    by (simp add: normalize_phone_number_def strip_def replace_def isdigit_def isspace_def)
  from normalize_phone_number_idempotent [OF a] a show ?thesis by simp
qed

section \<open>Evaluating the model\<close>

lemmas char_class_defs = is_upper_def is_lower_def lower_def alpha_def alnum_def alnum_hyphen_def
  hex_def is_decimal_digit_def isspace_def

lemmas url_regex_defs = url_regex_def re_scheme_def re_octet_def re_ip_literal_def re_domain_def
  re_host_def re_port_def re_path_def lit_def

lemmas url_flow_defs = preprocess_url_def get_url_with_scheme_def expand_short_url_def
  requests_head_def record_call_def Let_def

lemmas report_defs = build_report_def node_report_def verdict_word_def

lemmas phone_node_defs = MissedCallPhoneSafeChecker_is_safe_def TheCallPhoneSafeChecker_is_safe_def
  OneOneFourPhoneSafeChecker_is_safe_def webdriver_Chrome_def driver_quit_def driver_call_def
  record_call_def time_sleep_def extract_attempt_def requests_post_def getitem_def
  find_element_by_tag_def level_at_def startswith_def int_of_digits_def is_decimal_digit_def
  MAX_RETRIES_def

lemmas phone_check_defs = check_phone_safety_def phone_safe_checker_is_safe_def
  phone_safe_checker_def normalize_phone_number_def strip_def replace_def isdigit_def isspace_def

lemma is_url_r3born: "is_url ''r3born.cc''"
  by (simp add: is_url_def re_match_def url_regex_defs rep_rems.simps char_class_defs)

lemma is_url_example: "is_url ''example.com''"
  by (simp add: is_url_def re_match_def url_regex_defs rep_rems.simps char_class_defs)

lemma strip_r3born: "strip ''r3born.cc'' = ''r3born.cc''"
  by (simp add: strip_def isspace_def)

lemma strip_example: "strip ''example.com'' = ''example.com''"
  by (simp add: strip_def isspace_def)

section \<open>The URL override lists\<close>

text \<open>
  C1. A URL whose canonical form is in the URL blacklist should yield \<open>safe = false\<close>
  with the blacklist report and no node call. The code tests the canonical URL against
  the phone lists instead, so the blacklisted \<open>http://r3born.cc\<close> goes on to the
  three nodes; when they find nothing, the result is \<open>safe = true\<close> with the node report.
\<close>

theorem check_url_safety_blacklisted_url:
  "''http://r3born.cc'' \<in> set (url_blacklist SafeChecker_init)
   \<and> check_url_safety SafeChecker_init world_plain_http ''r3born.cc'' start =
      (Inr (True, ''- Node_1(PhishtankURLSafeChecker): ok\<newline>- Node_2(WhoXYURLSafeChecker): ok\<newline>- Node_3(KISAURLSafeChecker): ok''),
       \<lparr>log = [Head ''https://r3born.cc'', Head ''http://r3born.cc'', Head ''http://r3born.cc'',
               IsSafe ''Node_1'' ''http://r3born.cc'', IsSafe ''Node_2'' ''http://r3born.cc'',
               IsSafe ''Node_3'' ''http://r3born.cc''],
         sessions = 0\<rparr>)"
  by (simp add: check_url_safety_def url_flow_defs strip_r3born is_url_r3born
      ensure_scheme_def startswith_def world_plain_http_def start_def SafeChecker_init_def
      url_safe_checker_is_safe_def report_defs)

text \<open>The URL check never reads the URL lists: replacing them changes nothing.\<close>

lemma check_url_safety_ignores_url_lists:
  "check_url_safety (self\<lparr>url_whitelist := wl, url_blacklist := bl\<rparr>) w url s
     = check_url_safety self w url s"
  by (simp add: check_url_safety_def split: prod.splits sum.splits)

section \<open>Scheme resolution\<close>

lemma startswith_lower:
  assumes "startswith url p" and "map lower p = p"
  shows "startswith (map lower url) p"
proof -
  have "take (length p) (map lower url) = map lower (take (length p) url)"
    by (simp add: take_map)
  also have "\<dots> = map lower p" using assms(1) by (simp add: startswith_def)
  finally show ?thesis using assms(2) by (simp add: startswith_def)
qed

lemma ensure_scheme_bare:
  assumes "\<not> carries_scheme url"
  shows "ensure_scheme url ''https'' = ''https://'' @ url"
    and "ensure_scheme url ''http'' = ''http://'' @ url"
proof -
  have a: "map lower ''https://'' = ''https://''" and b: "map lower ''http://'' = ''http://''"
    by (simp_all add: lower_def is_upper_def)
  have "\<not> startswith url ''https://''"
    using assms startswith_lower [OF _ a] by (auto simp: carries_scheme_def)
  moreover have "\<not> startswith url ''http://''"
    using assms startswith_lower [OF _ b] by (auto simp: carries_scheme_def)
  ultimately show "ensure_scheme url ''https'' = ''https://'' @ url"
    and "ensure_scheme url ''http'' = ''http://'' @ url"
    by (simp_all add: ensure_scheme_def)
qed

text \<open>
  C3, as amended. Let the input carry no scheme. When the probe of \<open>https://\<close>
  followed by the input fails with a request failure other than a timeout, \<open>http://\<close>
  followed by the input is probed next, in the same way, and when that probe succeeds
  the subject becomes \<open>http://\<close> followed by the input. When the HTTPS probe times out,
  the HTTP variant is not probed: resolution ends with \<open>URLTimeoutError\<close> after the one
  probe. Nothing is said about inputs that carry a scheme.
\<close>

theorem get_url_with_scheme_fallback:
  assumes "\<not> carries_scheme url"
  shows "(head_reply w (log s) (''https://'' @ url) = Inl RequestException \<longrightarrow>
          head_reply w (log s @ [Head (''https://'' @ url)]) (''http://'' @ url) = Inr r \<longrightarrow>
            get_url_with_scheme w url s =
              (Inr (''http://'' @ url),
               s\<lparr>log := log s @ [Head (''https://'' @ url), Head (''http://'' @ url)]\<rparr>))
       \<and> (head_reply w (log s) (''https://'' @ url) = Inl Timeout \<longrightarrow>
            get_url_with_scheme w url s =
              (Inl URLTimeoutError, s\<lparr>log := log s @ [Head (''https://'' @ url)]\<rparr>))"
  using ensure_scheme_bare [OF assms]
  by (simp add: get_url_with_scheme_def requests_head_def record_call_def Let_def)

theorem get_url_with_scheme_fallback_witness:
  "\<not> carries_scheme ''r3born.cc''
   \<and> get_url_with_scheme world_plain_http ''r3born.cc'' start =
     (Inr ''http://r3born.cc'',
      \<lparr>log = [Head ''https://r3born.cc'', Head ''http://r3born.cc''], sessions = 0\<rparr>)
   \<and> get_url_with_scheme world_https_timeout ''r3born.cc'' start =
     (Inl URLTimeoutError, \<lparr>log = [Head ''https://r3born.cc''], sessions = 0\<rparr>)"
proof -
  have n: "\<not> carries_scheme ''r3born.cc''"
    by (simp add: carries_scheme_def startswith_def lower_def is_upper_def)
  have a: "head_reply world_plain_http (log start) (''https://'' @ ''r3born.cc'')
             = Inl RequestException"
    by (simp add: world_plain_http_def startswith_def)
  have b: "head_reply world_plain_http (log start @ [Head (''https://'' @ ''r3born.cc'')])
             (''http://'' @ ''r3born.cc'')
             = Inr \<lparr>status_code = 200, resp_url = ''http://r3born.cc''\<rparr>"
    by (simp add: world_plain_http_def startswith_def)
  have c: "head_reply world_https_timeout (log start) (''https://'' @ ''r3born.cc'') = Inl Timeout"
    by (simp add: world_https_timeout_def startswith_def)
  from get_url_with_scheme_fallback [OF n, of world_plain_http start] a b
  have "get_url_with_scheme world_plain_http ''r3born.cc'' start =
        (Inr (''http://'' @ ''r3born.cc''),
         start\<lparr>log := log start @ [Head (''https://'' @ ''r3born.cc''),
                                   Head (''http://'' @ ''r3born.cc'')]\<rparr>)"
    by blast
  moreover from get_url_with_scheme_fallback [OF n, of world_https_timeout start] c
  have "get_url_with_scheme world_https_timeout ''r3born.cc'' start =
        (Inl URLTimeoutError,
         start\<lparr>log := log start @ [Head (''https://'' @ ''r3born.cc'')]\<rparr>)"
    by blast
  ultimately show ?thesis using n
    by (simp add: start_def)
qed

text \<open>
  C3, as stated, fails: here the HTTPS probe times out and the HTTP probe would succeed,
  yet the HTTP variant is never probed and the URL is reported as not accessible.
\<close>

theorem get_url_with_scheme_counterexample:
  "head_reply world_https_timeout (log start) ''https://r3born.cc'' = Inl Timeout
   \<and> head_reply world_https_timeout (log start @ [Head ''https://r3born.cc'']) ''http://r3born.cc''
       = Inr \<lparr>status_code = 200, resp_url = ''http://r3born.cc''\<rparr>
   \<and> get_url_with_scheme world_https_timeout ''r3born.cc'' start =
       (Inl URLTimeoutError, \<lparr>log = [Head ''https://r3born.cc''], sessions = 0\<rparr>)
   \<and> check_url_safety SafeChecker_init world_https_timeout ''r3born.cc'' start =
       (Inr (True, ''URL is not accessible''),
        \<lparr>log = [Head ''https://r3born.cc''], sessions = 0\<rparr>)"
  by (simp add: check_url_safety_def url_flow_defs strip_r3born is_url_r3born
      world_https_timeout_def world_plain_http_def ensure_scheme_def startswith_def start_def)

section \<open>Inaccessible URLs\<close>

lemma node_calls_get_url_with_scheme:
  "get_url_with_scheme w url s = (r, s1) \<Longrightarrow> node_calls s1 = node_calls s"
  by (auto simp: get_url_with_scheme_def requests_head_def record_call_def Let_def node_calls_def
      split: sum.splits if_splits)

text \<open>
  C7. Let the input pass the grammar. If both probes of scheme resolution fail with a
  request failure, or one of them times out, or resolution succeeds and the expansion
  probe times out or answers 404, then \<open>check_url_safety\<close> returns \<open>safe = true\<close> with
  the report \<open>URL is not accessible\<close>, calls no node, and does the same whatever the
  override lists hold.
\<close>

theorem inaccessible_url_is_safe:
  assumes "is_url (strip raw)"
    and "(head_reply w (log s) (ensure_scheme (strip raw) ''https'') = Inl RequestException
          \<and> head_reply w (log s @ [Head (ensure_scheme (strip raw) ''https'')])
               (ensure_scheme (strip raw) ''http'') = Inl RequestException)
       \<or> head_reply w (log s) (ensure_scheme (strip raw) ''https'') = Inl Timeout
       \<or> (head_reply w (log s) (ensure_scheme (strip raw) ''https'') = Inl RequestException
          \<and> head_reply w (log s @ [Head (ensure_scheme (strip raw) ''https'')])
               (ensure_scheme (strip raw) ''http'') = Inl Timeout)
       \<or> (\<exists>u s1. get_url_with_scheme w (strip raw) s = (Inr u, s1)
            \<and> (head_reply w (log s1) u = Inl Timeout
               \<or> (\<exists>r. head_reply w (log s1) u = Inr r \<and> status_code r = 404)))"
  shows "fst (check_url_safety self w raw s) = Inr (True, ''URL is not accessible'')
       \<and> node_calls (snd (check_url_safety self w raw s)) = node_calls s
       \<and> check_url_safety self' w raw s = check_url_safety self w raw s"
proof -
  from assms(2) consider
      (both) "head_reply w (log s) (ensure_scheme (strip raw) ''https'') = Inl RequestException"
        "head_reply w (log s @ [Head (ensure_scheme (strip raw) ''https'')])
               (ensure_scheme (strip raw) ''http'') = Inl RequestException"
    | (first) "head_reply w (log s) (ensure_scheme (strip raw) ''https'') = Inl Timeout"
    | (second) "head_reply w (log s) (ensure_scheme (strip raw) ''https'') = Inl RequestException"
        "head_reply w (log s @ [Head (ensure_scheme (strip raw) ''https'')])
               (ensure_scheme (strip raw) ''http'') = Inl Timeout"
    | (expand) u s1 where "get_url_with_scheme w (strip raw) s = (Inr u, s1)"
        "head_reply w (log s1) u = Inl Timeout
               \<or> (\<exists>r. head_reply w (log s1) u = Inr r \<and> status_code r = 404)"
    by blast
  then show ?thesis
  proof cases
    case both
    then show ?thesis using assms(1)
      by (simp add: check_url_safety_def url_flow_defs node_calls_def)
  next
    case first
    then show ?thesis using assms(1)
      by (simp add: check_url_safety_def url_flow_defs node_calls_def)
  next
    case second
    then show ?thesis using assms(1)
      by (simp add: check_url_safety_def url_flow_defs node_calls_def)
  next
    case expand
    have g: "node_calls s1 = node_calls s"
      using expand(1) by (rule node_calls_get_url_with_scheme)
    from expand(2) show ?thesis
    proof
      assume "head_reply w (log s1) u = Inl Timeout"
      then show ?thesis using assms(1) expand(1) g
        by (simp add: check_url_safety_def preprocess_url_def expand_short_url_def
            requests_head_def record_call_def Let_def node_calls_def)
    next
      assume "\<exists>r. head_reply w (log s1) u = Inr r \<and> status_code r = 404"
      then show ?thesis using assms(1) expand(1) g
        by (auto simp: check_url_safety_def preprocess_url_def expand_short_url_def
            requests_head_def record_call_def Let_def node_calls_def)
    qed
  qed
qed

theorem inaccessible_url_is_safe_witness:
  "fst (check_url_safety SafeChecker_init world_unreachable ''example.com'' start)
     = Inr (True, ''URL is not accessible'')
   \<and> node_calls (snd (check_url_safety SafeChecker_init world_unreachable ''example.com'' start))
     = node_calls start
   \<and> fst (check_url_safety SafeChecker_init world_not_found ''example.com'' start)
     = Inr (True, ''URL is not accessible'')"
proof -
  have u: "is_url (strip ''example.com'')"
    by (simp add: strip_example is_url_example)
  have a: "head_reply world_unreachable (log start) (ensure_scheme (strip ''example.com'') ''https'')
             = Inl RequestException
           \<and> head_reply world_unreachable
               (log start @ [Head (ensure_scheme (strip ''example.com'') ''https'')])
               (ensure_scheme (strip ''example.com'') ''http'') = Inl RequestException"
    by (simp add: world_unreachable_def world_plain_http_def)
  have b: "\<exists>u s1. get_url_with_scheme world_not_found (strip ''example.com'') start = (Inr u, s1)
            \<and> (head_reply world_not_found (log s1) u = Inl Timeout
               \<or> (\<exists>r. head_reply world_not_found (log s1) u = Inr r \<and> status_code r = 404))"
    by (simp add: strip_example get_url_with_scheme_def requests_head_def record_call_def Let_def
        world_not_found_def world_plain_http_def start_def)
  from inaccessible_url_is_safe [OF u, of world_unreachable start SafeChecker_init SafeChecker_init] a
  have "fst (check_url_safety SafeChecker_init world_unreachable ''example.com'' start)
          = Inr (True, ''URL is not accessible'')
        \<and> node_calls (snd (check_url_safety SafeChecker_init world_unreachable ''example.com'' start))
          = node_calls start"
    by blast
  moreover from inaccessible_url_is_safe [OF u, of world_not_found start SafeChecker_init SafeChecker_init] b
  have "fst (check_url_safety SafeChecker_init world_not_found ''example.com'' start)
          = Inr (True, ''URL is not accessible'')"
    by blast
  ultimately show ?thesis by blast
qed

section \<open>Browser sessions and retries\<close>

lemma run_calls_sessions: "run_calls w cs s = (r, s') \<Longrightarrow> sessions s' = sessions s"
proof (induction cs arbitrary: s)
  case Nil
  then show ?case by simp
next
  case (Cons c cs)
  then show ?case
    by (auto simp: driver_call_def record_call_def split: option.splits)
qed

lemma extract_attempt_sessions: "extract_attempt w s = (r, s') \<Longrightarrow> sessions s' = sessions s"
  by (auto simp: extract_attempt_def driver_call_def record_call_def
      split: option.splits sum.splits)

lemma retry_loop_sessions: "sessions (snd (retry_loop w n b s)) = sessions s"
proof (induction w n b s rule: retry_loop.induct)
  case (1 w retry_count is_safe s)
  show ?case
  proof (cases "retry_count < MAX_RETRIES")
    case False
    then show ?thesis by (simp add: retry_loop.simps)
  next
    case True
    obtain r s1 where ea: "extract_attempt w s = (r, s1)" by (cases "extract_attempt w s")
    have s1: "sessions s1 = sessions s" using ea by (rule extract_attempt_sessions)
    show ?thesis
    proof (cases r)
      case (Inr v)
      then show ?thesis using True ea s1 by (simp add: retry_loop.simps [of w retry_count])
    next
      case (Inl e)
      show ?thesis
      proof (cases "e = ExtractLevelFailureError")
        case False
        then show ?thesis using True ea s1 Inl by (simp add: retry_loop.simps [of w retry_count])
      next
        case e: True
        have "sessions (snd (retry_loop w (retry_count + 1) is_safe (time_sleep 3 s1)))
                = sessions (time_sleep 3 s1)"
          using "1.IH" [OF True ea [symmetric] _ e True] Inl by simp
        then show ?thesis using True ea s1 Inl e
          by (simp add: retry_loop.simps [of w retry_count] time_sleep_def record_call_def)
      qed
    qed
  qed
qed

text \<open>
  Whatever the page shows, the retry loop never ends with the extraction failure: the
  handler re-raises only when \<open>retry_count\<close> has reached \<open>MAX_RETRIES\<close>, and inside the
  loop it never has.
\<close>

lemma retry_loop_no_extract_failure:
  "fst (retry_loop w n b s) \<noteq> Inl ExtractLevelFailureError"
proof (induction w n b s rule: retry_loop.induct)
  case (1 w retry_count is_safe s)
  show ?case
  proof (cases "retry_count < MAX_RETRIES")
    case False
    then show ?thesis by (simp add: retry_loop.simps)
  next
    case True
    obtain r s1 where ea: "extract_attempt w s = (r, s1)" by (cases "extract_attempt w s")
    show ?thesis
    proof (cases r)
      case (Inr v)
      then show ?thesis using True ea by (simp add: retry_loop.simps [of w retry_count])
    next
      case (Inl e)
      show ?thesis
      proof (cases "e = ExtractLevelFailureError")
        case False
        then show ?thesis using True ea Inl by (simp add: retry_loop.simps [of w retry_count])
      next
        case e: True
        have "fst (retry_loop w (retry_count + 1) is_safe (time_sleep 3 s1))
                \<noteq> Inl ExtractLevelFailureError"
          using "1.IH" [OF True ea [symmetric] _ e True] Inl by simp
        then show ?thesis using True ea Inl e
          by (simp add: retry_loop.simps [of w retry_count])
      qed
    qed
  qed
qed

lemma extract_attempt_no_level:
  "fst (extract_attempt world_no_level s) = Inl ExtractLevelFailureError"
  by (simp add: extract_attempt_def driver_call_def record_call_def find_element_by_tag_def
      world_no_level_def world_plain_http_def)

text \<open>
  C2. When the level extraction fails on each of the three attempts, Browser Lookup B
  should propagate the extraction failure, and the consensus should abort with
  \<open>OperationFailedError\<close>. The code sleeps after each of the three failures, leaves the
  loop, quits the browser and returns \<open>is_safe\<close> as it was initialised, \<open>False\<close>: the
  node reports a verdict, and the phone check returns a result with that node
  \<open>suspicious\<close>.
\<close>

theorem missed_call_retries_exhausted:
  "MissedCallPhoneSafeChecker_is_safe world_no_level ''01012345678'' start =
     (Inr False,
      \<lparr>log = [Chrome, Stealth, Get ''http://www.missed-call.com/'', WaitPresence ''pnum'',
              SendKeys ''01012345678'', FindElement ''submitButton'', Click,
              WaitPresence ''result_is_spam'', Sleep 3,
              WaitPresence ''result_is_spam'', Sleep 3,
              WaitPresence ''result_is_spam'', Sleep 3, Quit],
        sessions = 0\<rparr>)
   \<and> fst (check_phone_safety SafeChecker_init world_no_level ''010-1234-5678'' start) =
       Inr (False, ''- Node_1(OneOneFourPhoneSafeChecker): ok\<newline>- Node_2(TheCallPhoneSafeChecker): suspicious\<newline>- Node_3(MissedCallPhoneSafeChecker): suspicious'')"
  by (simp add: phone_node_defs phone_check_defs retry_loop.simps world_no_level_def
      world_plain_http_def clean_scam_data_def start_def SafeChecker_init_def report_defs)

text \<open>
  C4, as amended. Each browser-driven node releases its session on every exit path
  that returns a verdict, safe or unsafe: the session it started is quit, and the quit is
  the last call made. When the node ends with an exception after its session was started,
  the session is not released.
\<close>

theorem browser_session_released_on_verdict:
  assumes "is_safe = TheCallPhoneSafeChecker_is_safe \<or> is_safe = MissedCallPhoneSafeChecker_is_safe"
  shows "(\<forall>v s'. is_safe w phone s = (Inr v, s') \<longrightarrow>
            driver_reply w (log s) Chrome = None \<and> sessions s' = sessions s
            \<and> last (log s') = Quit)
       \<and> (\<forall>e s'. is_safe w phone s = (Inl e, s') \<longrightarrow>
            sessions s' = (if driver_reply w (log s) Chrome = None
                           then Suc (sessions s) else sessions s))"
  using assms
proof
  assume a: "is_safe = TheCallPhoneSafeChecker_is_safe"
  show ?thesis
    unfolding a TheCallPhoneSafeChecker_is_safe_def webdriver_Chrome_def
    by (auto simp: driver_call_def driver_quit_def record_call_def simp del: run_calls.simps
        split: option.splits prod.splits if_splits dest!: run_calls_sessions)
next
  assume a: "is_safe = MissedCallPhoneSafeChecker_is_safe"
  have r: "retry_loop w n b s2 = (x, s3) \<Longrightarrow> sessions s3 = sessions s2" for n b s2 x s3
    using retry_loop_sessions [of w n b s2] by simp
  show ?thesis
    unfolding a MissedCallPhoneSafeChecker_is_safe_def webdriver_Chrome_def
    by (auto simp: driver_quit_def record_call_def simp del: run_calls.simps
        split: option.splits prod.splits sum.splits dest!: run_calls_sessions r)
qed

theorem browser_session_released_on_verdict_witness:
  "sessions (snd (TheCallPhoneSafeChecker_is_safe world_plain_http ''01012345678'' start)) = 0
   \<and> last (log (snd (TheCallPhoneSafeChecker_is_safe world_plain_http ''01012345678'' start))) = Quit
   \<and> sessions (snd (MissedCallPhoneSafeChecker_is_safe world_plain_http ''01012345678'' start)) = 0
   \<and> sessions (snd (TheCallPhoneSafeChecker_is_safe world_no_input ''01012345678'' start)) = 1"
proof -
  obtain s1 where a: "TheCallPhoneSafeChecker_is_safe world_plain_http ''01012345678'' start
                        = (Inr False, s1)"
    by (simp add: phone_node_defs world_plain_http_def start_def)
  obtain s2 where b: "MissedCallPhoneSafeChecker_is_safe world_plain_http ''01012345678'' start
                        = (Inr True, s2)"
    by (simp add: phone_node_defs retry_loop.simps world_plain_http_def start_def)
  obtain s3 where c: "TheCallPhoneSafeChecker_is_safe world_no_input ''01012345678'' start
                        = (Inl TimeoutException, s3)"
    by (simp add: phone_node_defs world_no_input_def world_plain_http_def start_def)
  have d: "driver_reply world_no_input (log start) Chrome = None"
    by (simp add: world_no_input_def world_plain_http_def)
  from browser_session_released_on_verdict
         [of TheCallPhoneSafeChecker_is_safe world_plain_http "''01012345678''" start] a
  have "sessions s1 = sessions start \<and> last (log s1) = Quit" by blast
  moreover
  from browser_session_released_on_verdict
         [of MissedCallPhoneSafeChecker_is_safe world_plain_http "''01012345678''" start] b
  have "sessions s2 = sessions start" by blast
  moreover
  from browser_session_released_on_verdict
         [of TheCallPhoneSafeChecker_is_safe world_no_input "''01012345678''" start] c d
  have "sessions s3 = Suc (sessions start)" by auto
  ultimately show ?thesis using a b c by (simp add: start_def)
qed

text \<open>
  C4, as stated, fails: when the input field of the first lookup site does not appear
  within the wait, \<open>is_safe\<close> ends with the \<open>TimeoutException\<close> and the session it
  started stays open; no quit is in the log.
\<close>

theorem browser_session_leak_counterexample:
  "TheCallPhoneSafeChecker_is_safe world_no_input ''01012345678'' start =
     (Inl TimeoutException,
      \<lparr>log = [Chrome, Stealth, Get ''https://www.thecall.co.kr/'',
              WaitPresence ''#sidebar > section.number_search > form > input.stx''],
        sessions = 1\<rparr>)"
  by (simp add: phone_node_defs world_no_input_def world_plain_http_def start_def)

section \<open>Consensus\<close>

lemma split_on_no_sep: "sep \<notin> set x \<Longrightarrow> split_on sep x = [x]"
  by (induction x) auto

lemma split_on_append: "sep \<notin> set x \<Longrightarrow> split_on sep (x @ sep # rest) = x # split_on sep rest"
  by (induction x) auto

lemma report_lines_three:
  assumes "CHR 0x0A \<notin> set a" "CHR 0x0A \<notin> set b" "CHR 0x0A \<notin> set c"
  shows "report_lines (build_report [a, b, c]) = [''- '' @ a, ''- '' @ b, ''- '' @ c]"
proof -
  have r: "build_report [a, b, c]
          = (''- '' @ a) @ CHR 0x0A # ((''- '' @ b) @ CHR 0x0A # (''- '' @ c))"
    by (simp add: build_report_def)
  have na: "CHR 0x0A \<notin> set (''- '' @ a)" and nb: "CHR 0x0A \<notin> set (''- '' @ b)"
    and nc: "CHR 0x0A \<notin> set (''- '' @ c)"
    using assms by simp_all
  show ?thesis
    unfolding report_lines_def r
    by (simp only: split_on_append [OF na] split_on_append [OF nb] split_on_no_sep [OF nc])
qed

lemma verdict_word_no_newline: "CHR 0x0A \<notin> set (verdict_word v)"
  by (simp add: verdict_word_def)

lemma report_lines_url:
  "report_lines (build_report
       [node_report ''Node_1'' ''PhishtankURLSafeChecker'' v1,
        node_report ''Node_2'' ''WhoXYURLSafeChecker'' v2,
        node_report ''Node_3'' ''KISAURLSafeChecker'' v3])
   = [''- Node_1(PhishtankURLSafeChecker): '' @ verdict_word v1,
      ''- Node_2(WhoXYURLSafeChecker): '' @ verdict_word v2,
      ''- Node_3(KISAURLSafeChecker): '' @ verdict_word v3]"
  by (subst report_lines_three) (simp_all add: node_report_def verdict_word_no_newline)

lemma report_lines_phone:
  "report_lines (build_report
       [node_report ''Node_1'' ''OneOneFourPhoneSafeChecker'' v1,
        node_report ''Node_2'' ''TheCallPhoneSafeChecker'' v2,
        node_report ''Node_3'' ''MissedCallPhoneSafeChecker'' v3])
   = [''- Node_1(OneOneFourPhoneSafeChecker): '' @ verdict_word v1,
      ''- Node_2(TheCallPhoneSafeChecker): '' @ verdict_word v2,
      ''- Node_3(MissedCallPhoneSafeChecker): '' @ verdict_word v3]"
  by (subst report_lines_three) (simp_all add: node_report_def verdict_word_no_newline)

text \<open>
  C5. A subject is matched by an override list when it is in any of the checker's four
  lists. For a subject that is in none of them, when the three nodes of its type, called
  in the order \<open>Node_1\<close>, \<open>Node_2\<close>, \<open>Node_3\<close>, each return a verdict, the check
  returns \<open>safe\<close> as the conjunction of the three verdicts, and a report of exactly three
  lines, one per node in that order, each ending in \<open>ok\<close> or \<open>suspicious\<close> as that
  node's verdict was, whatever the overall outcome. The first conjunct is the URL check,
  the second the phone check.
\<close>

theorem consensus_is_strict_and:
  "(preprocess_url w raw s = (Inr u, s1) \<longrightarrow> \<not> in_override_list self u \<longrightarrow>
    url_safe_checker_is_safe w ''Node_1'' u s1 = (Inr v1, s2) \<longrightarrow>
    url_safe_checker_is_safe w ''Node_2'' u s2 = (Inr v2, s3) \<longrightarrow>
    url_safe_checker_is_safe w ''Node_3'' u s3 = (Inr v3, s4) \<longrightarrow>
      (\<exists>report. check_url_safety self w raw s = (Inr (v1 \<and> v2 \<and> v3, report), s4)
         \<and> report_lines report =
             [''- Node_1(PhishtankURLSafeChecker): '' @ verdict_word v1,
              ''- Node_2(WhoXYURLSafeChecker): '' @ verdict_word v2,
              ''- Node_3(KISAURLSafeChecker): '' @ verdict_word v3]))
   \<and> (normalize_phone_number raw = Inr p \<longrightarrow> \<not> in_override_list self p \<longrightarrow>
    phone_safe_checker_is_safe w ''Node_1'' p s = (Inr v1, s2) \<longrightarrow>
    phone_safe_checker_is_safe w ''Node_2'' p s2 = (Inr v2, s3) \<longrightarrow>
    phone_safe_checker_is_safe w ''Node_3'' p s3 = (Inr v3, s4) \<longrightarrow>
      (\<exists>report. check_phone_safety self w raw s = (Inr (v1 \<and> v2 \<and> v3, report), s4)
         \<and> report_lines report =
             [''- Node_1(OneOneFourPhoneSafeChecker): '' @ verdict_word v1,
              ''- Node_2(TheCallPhoneSafeChecker): '' @ verdict_word v2,
              ''- Node_3(MissedCallPhoneSafeChecker): '' @ verdict_word v3]))"
  by (simp add: check_url_safety_def check_phone_safety_def in_override_list_def
      report_lines_url report_lines_phone)

theorem consensus_is_strict_and_witness:
  "(\<exists>report. fst (check_url_safety SafeChecker_init world_mixed ''example.com'' start)
        = Inr (False, report)
      \<and> report_lines report =
          [''- Node_1(PhishtankURLSafeChecker): ok'',
           ''- Node_2(WhoXYURLSafeChecker): suspicious'',
           ''- Node_3(KISAURLSafeChecker): ok''])
   \<and> (\<exists>report. fst (check_phone_safety SafeChecker_init world_plain_http ''010-1234-5678'' start)
        = Inr (False, report)
      \<and> report_lines report =
          [''- Node_1(OneOneFourPhoneSafeChecker): ok'',
           ''- Node_2(TheCallPhoneSafeChecker): suspicious'',
           ''- Node_3(MissedCallPhoneSafeChecker): ok''])"
proof -
  let ?u = "''http://example.com''"
  let ?p = "''01012345678''"
  obtain s1 where pre: "preprocess_url world_mixed ''example.com'' start = (Inr ?u, s1)"
    by (simp add: url_flow_defs strip_example is_url_example ensure_scheme_def startswith_def
        world_mixed_def world_plain_http_def start_def)
  have nu: "\<not> in_override_list SafeChecker_init ?u"
    by (simp add: in_override_list_def SafeChecker_init_def)
  obtain s2 where u1: "url_safe_checker_is_safe world_mixed ''Node_1'' ?u s1 = (Inr True, s2)"
    by (simp add: url_safe_checker_is_safe_def world_mixed_def world_plain_http_def)
  obtain s3 where u2: "url_safe_checker_is_safe world_mixed ''Node_2'' ?u s2 = (Inr False, s3)"
    by (simp add: url_safe_checker_is_safe_def world_mixed_def world_plain_http_def)
  obtain s4 where u3: "url_safe_checker_is_safe world_mixed ''Node_3'' ?u s3 = (Inr True, s4)"
    by (simp add: url_safe_checker_is_safe_def world_mixed_def world_plain_http_def)
  have norm: "normalize_phone_number ''010-1234-5678'' = Inr ?p"
    by (simp add: normalize_phone_number_def strip_def replace_def isdigit_def isspace_def)
  have np: "\<not> in_override_list SafeChecker_init ?p"
    by (simp add: in_override_list_def SafeChecker_init_def)
  obtain t2 where p1: "phone_safe_checker_is_safe world_plain_http ''Node_1'' ?p start = (Inr True, t2)"
    by (simp add: phone_safe_checker_is_safe_def phone_safe_checker_def phone_node_defs
        world_plain_http_def clean_scam_data_def start_def)
  obtain t3 where p2: "phone_safe_checker_is_safe world_plain_http ''Node_2'' ?p t2 = (Inr False, t3)"
    by (simp add: phone_safe_checker_is_safe_def phone_safe_checker_def phone_node_defs
        world_plain_http_def)
  obtain t4 where p3: "phone_safe_checker_is_safe world_plain_http ''Node_3'' ?p t3 = (Inr True, t4)"
    by (simp add: phone_safe_checker_is_safe_def phone_safe_checker_def phone_node_defs
        retry_loop.simps world_plain_http_def)
  from consensus_is_strict_and
         [of world_mixed "''example.com''" start ?u s1 SafeChecker_init True s2 False s3 True s4]
       pre nu u1 u2 u3
  have "\<exists>report. check_url_safety SafeChecker_init world_mixed ''example.com'' start
                   = (Inr (True \<and> False \<and> True, report), s4)
         \<and> report_lines report =
             [''- Node_1(PhishtankURLSafeChecker): '' @ verdict_word True,
              ''- Node_2(WhoXYURLSafeChecker): '' @ verdict_word False,
              ''- Node_3(KISAURLSafeChecker): '' @ verdict_word True]"
    by blast
  then have a: "\<exists>report. fst (check_url_safety SafeChecker_init world_mixed ''example.com'' start)
        = Inr (False, report)
      \<and> report_lines report =
          [''- Node_1(PhishtankURLSafeChecker): ok'',
           ''- Node_2(WhoXYURLSafeChecker): suspicious'',
           ''- Node_3(KISAURLSafeChecker): ok'']"
    by (auto simp: verdict_word_def)
  from consensus_is_strict_and
         [of world_plain_http "''010-1234-5678''" start _ _ SafeChecker_init True t2 False t3 True t4 ?p]
       norm np p1 p2 p3
  have "\<exists>report. check_phone_safety SafeChecker_init world_plain_http ''010-1234-5678'' start
                   = (Inr (True \<and> False \<and> True, report), t4)
         \<and> report_lines report =
             [''- Node_1(OneOneFourPhoneSafeChecker): '' @ verdict_word True,
              ''- Node_2(TheCallPhoneSafeChecker): '' @ verdict_word False,
              ''- Node_3(MissedCallPhoneSafeChecker): '' @ verdict_word True]"
    by blast
  then have b: "\<exists>report. fst (check_phone_safety SafeChecker_init world_plain_http ''010-1234-5678'' start)
        = Inr (False, report)
      \<and> report_lines report =
          [''- Node_1(OneOneFourPhoneSafeChecker): ok'',
           ''- Node_2(TheCallPhoneSafeChecker): suspicious'',
           ''- Node_3(MissedCallPhoneSafeChecker): ok'']"
    by (auto simp: verdict_word_def)
  from a b show ?thesis by blast
qed

text \<open>
  C8. For a subject that is in none of the override lists, if the first node raises, or
  the first returns a verdict and the second raises, or the first two return verdicts and
  the third raises, then the check ends with \<open>OperationFailedError\<close> and produces no
  result. The first conjunct is the URL check, the second the phone check.
\<close>

theorem node_error_aborts_consensus:
  "(preprocess_url w raw s = (Inr u, s1) \<longrightarrow> \<not> in_override_list self u \<longrightarrow>
      (fst (url_safe_checker_is_safe w ''Node_1'' u s1) = Inl e
       \<or> (url_safe_checker_is_safe w ''Node_1'' u s1 = (Inr v1, s2)
          \<and> fst (url_safe_checker_is_safe w ''Node_2'' u s2) = Inl e)
       \<or> (url_safe_checker_is_safe w ''Node_1'' u s1 = (Inr v1, s2)
          \<and> url_safe_checker_is_safe w ''Node_2'' u s2 = (Inr v2, s3)
          \<and> fst (url_safe_checker_is_safe w ''Node_3'' u s3) = Inl e)) \<longrightarrow>
      fst (check_url_safety self w raw s) = Inl OperationFailedError)
   \<and> (normalize_phone_number raw = Inr p \<longrightarrow> \<not> in_override_list self p \<longrightarrow>
      (fst (phone_safe_checker_is_safe w ''Node_1'' p s) = Inl e
       \<or> (phone_safe_checker_is_safe w ''Node_1'' p s = (Inr v1, s2)
          \<and> fst (phone_safe_checker_is_safe w ''Node_2'' p s2) = Inl e)
       \<or> (phone_safe_checker_is_safe w ''Node_1'' p s = (Inr v1, s2)
          \<and> phone_safe_checker_is_safe w ''Node_2'' p s2 = (Inr v2, s3)
          \<and> fst (phone_safe_checker_is_safe w ''Node_3'' p s3) = Inl e)) \<longrightarrow>
      fst (check_phone_safety self w raw s) = Inl OperationFailedError)"
  by (auto simp: check_url_safety_def check_phone_safety_def in_override_list_def
      split: prod.splits sum.splits)

theorem node_error_aborts_consensus_witness:
  "fst (check_url_safety SafeChecker_init world_node_error ''example.com'' start)
     = Inl OperationFailedError
   \<and> fst (check_phone_safety SafeChecker_init world_node_error ''010-1234-5678'' start)
     = Inl OperationFailedError"
proof -
  let ?u = "''http://example.com''"
  let ?p = "''01012345678''"
  obtain s1 where pre: "preprocess_url world_node_error ''example.com'' start = (Inr ?u, s1)"
    by (simp add: url_flow_defs strip_example is_url_example ensure_scheme_def startswith_def
        world_node_error_def world_plain_http_def start_def)
  have nu: "\<not> in_override_list SafeChecker_init ?u"
    by (simp add: in_override_list_def SafeChecker_init_def)
  obtain s2 where u1: "url_safe_checker_is_safe world_node_error ''Node_1'' ?u s1 = (Inr True, s2)"
    by (simp add: url_safe_checker_is_safe_def world_node_error_def world_plain_http_def)
  have u2: "fst (url_safe_checker_is_safe world_node_error ''Node_2'' ?u s2)
              = Inl (PyException ''RequestFailureError'')"
    by (simp add: url_safe_checker_is_safe_def world_node_error_def world_plain_http_def)
  have norm: "normalize_phone_number ''010-1234-5678'' = Inr ?p"
    by (simp add: normalize_phone_number_def strip_def replace_def isdigit_def isspace_def)
  have np: "\<not> in_override_list SafeChecker_init ?p"
    by (simp add: in_override_list_def SafeChecker_init_def)
  have p1: "fst (phone_safe_checker_is_safe world_node_error ''Node_1'' ?p start)
              = Inl RequestException"
    by (simp add: phone_safe_checker_is_safe_def phone_safe_checker_def phone_node_defs
        world_node_error_def world_plain_http_def start_def)
  from node_error_aborts_consensus
         [of world_node_error "''example.com''" start ?u s1 SafeChecker_init
             "PyException ''RequestFailureError''" True s2]
       pre nu u1 u2
  have a: "fst (check_url_safety SafeChecker_init world_node_error ''example.com'' start)
             = Inl OperationFailedError"
    by blast
  from node_error_aborts_consensus
         [where w = world_node_error and raw = "''010-1234-5678''" and s = start and p = ?p
            and self = SafeChecker_init and e = RequestException]
       norm np p1
  have b: "fst (check_phone_safety SafeChecker_init world_node_error ''010-1234-5678'' start)
             = Inl OperationFailedError"
    by blast
  from a b show ?thesis by blast
qed

section \<open>Whitelist before blacklist\<close>

text \<open>
  The phone check tests the whitelist first: a normalized phone number that is in both
  the phone whitelist and the phone blacklist is reported safe with the whitelist
  report, and no node is called.
\<close>

lemma phone_whitelist_precedes_blacklist:
  "normalize_phone_number raw = Inr p \<Longrightarrow> p \<in> set (phone_whitelist self) \<Longrightarrow>
   p \<in> set (phone_blacklist self) \<Longrightarrow>
   check_phone_safety self w raw s =
     (Inr (True, ''Valid phone number which listed on whitelist''), s)"
  by (simp add: check_phone_safety_def)

lemma phone_whitelist_precedes_blacklist_example:
  "check_phone_safety (SafeChecker_init\<lparr>phone_blacklist := [''01082539451'', ''01092563688'']\<rparr>)
      world_plain_http ''010-9256-3688'' start =
     (Inr (True, ''Valid phone number which listed on whitelist''), start)"
proof -
  have n: "normalize_phone_number ''010-9256-3688'' = Inr ''01092563688''"
    by (simp add: normalize_phone_number_def strip_def replace_def isdigit_def isspace_def)
  have a: "''01092563688'' \<in> set (phone_whitelist
             (SafeChecker_init\<lparr>phone_blacklist := [''01082539451'', ''01092563688'']\<rparr>))"
    by (simp add: SafeChecker_init_def)
  have b: "''01092563688'' \<in> set (phone_blacklist
             (SafeChecker_init\<lparr>phone_blacklist := [''01082539451'', ''01092563688'']\<rparr>))"
    by simp
  from phone_whitelist_precedes_blacklist [OF n a b] show ?thesis .
qed


end
